theory Spec2Isabelle
  imports Main
begin

section \<open>Python values, exceptions and the object store\<close>

text \<open>
  The source is dynamically typed and checks the shape of its arguments at run time
  (\<open>isinstance\<close>, \<open>type(x) is list\<close>, \<open>hasattr(x, "__iter__")\<close>), so arguments are
  values of \<open>pyval\<close>: the kinds of Python value those checks tell apart. \<open>VObj r\<close> is a
  reference to a \<open>State\<close> instance in the store. Python integers are unbounded
  (\<open>int\<close>). Floating point numbers and other containers are not modelled.
\<close>

type_synonym ref = nat

datatype pyval =
    VNone
  | VBool bool
  | VInt int
  | VStr string
  | VList "pyval list"
  | VTuple "pyval list"
  | VObj ref

text \<open>
  One constructor for each \<open>raise\<close> of \<open>fsm.py\<close>, and two for exceptions that the
  built-ins used there raise (\<open>dict\<close> operations on an unhashable key, \<open>int\<close> on a
  string that is no literal). \<open>exc_class\<close> gives the Python exception class.
\<close>

datatype error =
    InvalidName                   \<comment> \<open>State.__init__: name empty or not a str\<close>
  | InvalidAcceptingFlag          \<comment> \<open>State.__init__: is_accepting not a bool\<close>
  | SymbolNotInt                  \<comment> \<open>add_transition: input symbol not an int\<close>
  | DuplicateTransition int       \<comment> \<open>State.add_transition: symbol already present\<close>
  | NextStateNotState             \<comment> \<open>State.add_transition: next_state not a State\<close>
  | InitialStateNotState          \<comment> \<open>FSM.__init__: initial_state not a State\<close>
  | NotAState                     \<comment> \<open>FSM.add_state: state not a State\<close>
  | DuplicateState string         \<comment> \<open>FSM.add_state: name already registered\<close>
  | UnknownSourceState pyval      \<comment> \<open>FSM.add_transition: source name not registered\<close>
  | UnknownTargetState pyval      \<comment> \<open>FSM.add_transition: target name not registered\<close>
  | NotIterable                   \<comment> \<open>FSM.process_input: argument has no __iter__\<close>
  | EmptyInput                    \<comment> \<open>FSM.process_input: argument is empty\<close>
  | NoTransition pyval string     \<comment> \<open>FSM.process_input: symbol, name of the current state\<close>
  | NotAList pyval                \<comment> \<open>process_three_mod_input: argument is not a list\<close>
  | ElementNotInt pyval           \<comment> \<open>process_three_mod_input: element not an int\<close>
  | ElementNotBinary pyval        \<comment> \<open>process_three_mod_input: element not in [0, 1]\<close>
  | Unhashable pyval              \<comment> \<open>dict lookup with an unhashable key\<close>
  | InvalidLiteral string         \<comment> \<open>int(s) on a string that is no integer literal\<close>

datatype exc = TypeError | ValueError

fun exc_class :: "error \<Rightarrow> exc" where
  "exc_class InvalidName = ValueError"
| "exc_class InvalidAcceptingFlag = ValueError"
| "exc_class SymbolNotInt = ValueError"
| "exc_class (DuplicateTransition _) = ValueError"
| "exc_class NextStateNotState = TypeError"
| "exc_class InitialStateNotState = TypeError"
| "exc_class NotAState = TypeError"
| "exc_class (DuplicateState _) = ValueError"
| "exc_class (UnknownSourceState _) = ValueError"
| "exc_class (UnknownTargetState _) = ValueError"
| "exc_class NotIterable = TypeError"
| "exc_class EmptyInput = ValueError"
| "exc_class (NoTransition _ _) = ValueError"
| "exc_class (NotAList _) = TypeError"
| "exc_class (ElementNotInt _) = TypeError"
| "exc_class (ElementNotBinary _) = TypeError"
| "exc_class (Unhashable _) = TypeError"
| "exc_class (InvalidLiteral _) = ValueError"

text \<open>
  \<open>isinstance(v, int)\<close> holds of integers and of booleans (\<open>bool\<close> is a subclass of
  \<open>int\<close>); \<open>int_value\<close> is the integer such a value equals (\<open>True == 1\<close>,
  \<open>False == 0\<close>), which is also the key it is as a dictionary key.
\<close>

fun int_value :: "pyval \<Rightarrow> int option" where
  "int_value (VInt i) = Some i"
| "int_value (VBool b) = Some (if b then 1 else 0)"
| "int_value _ = None"

definition isinstance_int :: "pyval \<Rightarrow> bool" where
  "isinstance_int v = (int_value v \<noteq> None)"

fun isinstance_str :: "pyval \<Rightarrow> bool" where
  "isinstance_str (VStr _) = True"
| "isinstance_str _ = False"

fun isinstance_bool :: "pyval \<Rightarrow> bool" where
  "isinstance_bool (VBool _) = True"
| "isinstance_bool _ = False"

text \<open>Truth value of a Python value, as \<open>not x\<close> and \<open>if x\<close> test it.\<close>

fun truthy :: "pyval \<Rightarrow> bool" where
  "truthy VNone = False"
| "truthy (VBool b) = b"
| "truthy (VInt i) = (i \<noteq> 0)"
| "truthy (VStr s) = (s \<noteq> [])"
| "truthy (VList xs) = (xs \<noteq> [])"
| "truthy (VTuple xs) = (xs \<noteq> [])"
| "truthy (VObj _) = True"

text \<open>Lists are unhashable, and so is a tuple that contains an unhashable value.\<close>

fun hashable :: "pyval \<Rightarrow> bool" where
  "hashable (VList _) = False"
| "hashable (VTuple xs) = list_all hashable xs"
| "hashable _ = True"

text \<open>
  The elements a \<open>for\<close> loop visits: \<open>None\<close> for a value without \<open>__iter__\<close>; a string
  yields its characters as one-character strings.
\<close>

fun py_iter :: "pyval \<Rightarrow> pyval list option" where
  "py_iter (VList xs) = Some xs"
| "py_iter (VTuple xs) = Some xs"
| "py_iter (VStr s) = Some (map (\<lambda>c. VStr [c]) s)"
| "py_iter _ = None"

section \<open>class State\<close>

text \<open>
  A \<open>State\<close> object. Its \<open>transitions\<close> dictionary is an association list in insertion
  order, from the integer value of the symbol to the reference of the next state;
  \<open>add_transition\<close> is its only writer and never adds a key that is present.
  State objects are shared (the registry of a machine, the transitions of other states and
  \<open>current_state\<close> all refer to them) and mutated in place, so they live in a store:
  the list of all State objects allocated so far, a reference being an index into it.
\<close>

record State =
  name :: string
  is_accepting :: bool
  transitions :: "(int \<times> ref) list"

type_synonym heap = "State list"

text \<open>
  A method that mutates returns the outcome (\<open>Inl\<close> the exception raised, \<open>Inr\<close> the
  value returned) together with the object state it leaves behind, also when it raises.
\<close>

type_synonym ('a, 's) outcome = "(error + 'a) \<times> 's"

definition State_init :: "heap \<Rightarrow> pyval \<Rightarrow> pyval \<Rightarrow> error + (ref \<times> heap)" where
  "State_init h name_arg accepting_arg =
     (if \<not> truthy name_arg \<or> \<not> isinstance_str name_arg then Inl InvalidName
      else if \<not> isinstance_bool accepting_arg then Inl InvalidAcceptingFlag
      else case (name_arg, accepting_arg) of
             (VStr n, VBool a) \<Rightarrow>
               Inr (length h, h @ [\<lparr>name = n, is_accepting = a, transitions = []\<rparr>])
           | _ \<Rightarrow> Inl InvalidName)"

definition State_add_transition ::
  "heap \<Rightarrow> ref \<Rightarrow> pyval \<Rightarrow> pyval \<Rightarrow> (unit, heap) outcome" where
  "State_add_transition h self input_symbol next_state =
     (case int_value input_symbol of
        None \<Rightarrow> (Inl SymbolNotInt, h)
      | Some k \<Rightarrow>
          if k \<in> fst ` set (transitions (h ! self)) then (Inl (DuplicateTransition k), h)
          else case next_state of
                 VObj t \<Rightarrow>
                   (Inr (), h[self := (h ! self)\<lparr>transitions := transitions (h ! self) @ [(k, t)]\<rparr>])
               | _ \<Rightarrow> (Inl NextStateNotState, h))"

definition get_next_state :: "heap \<Rightarrow> ref \<Rightarrow> pyval \<Rightarrow> error + ref option" where
  "get_next_state h self input_symbol =
     (if \<not> hashable input_symbol then Inl (Unhashable input_symbol)
      else case int_value input_symbol of
             None \<Rightarrow> Inr None
           | Some k \<Rightarrow> Inr (map_of (transitions (h ! self)) k))"

section \<open>class FSM\<close>

text \<open>
  The machine object: \<open>current_state\<close> is a reference to a State object, \<open>states\<close> the
  registry dictionary from state name to State object, in insertion order.
\<close>

record FSM =
  current_state :: ref
  states :: "(string \<times> ref) list"

definition FSM_init :: "heap \<Rightarrow> pyval \<Rightarrow> error + FSM" where
  "FSM_init h initial_state =
     (case initial_state of
        VObj r \<Rightarrow> Inr \<lparr>current_state = r, states = [(name (h ! r), r)]\<rparr>
      | _ \<Rightarrow> Inl InitialStateNotState)"

definition add_state :: "heap \<Rightarrow> FSM \<Rightarrow> pyval \<Rightarrow> (unit, FSM) outcome" where
  "add_state h m state =
     (case state of
        VObj r \<Rightarrow>
          if name (h ! r) \<in> fst ` set (states m) then (Inl (DuplicateState (name (h ! r))), m)
          else (Inr (), m\<lparr>states := states m @ [(name (h ! r), r)]\<rparr>)
      | _ \<Rightarrow> (Inl NotAState, m))"

text \<open>
  \<open>key in self.states\<close> and \<open>self.states[key]\<close> for an arbitrary value: the keys are
  strings, so only a string can be found; an unhashable key raises.
\<close>

definition states_lookup :: "FSM \<Rightarrow> pyval \<Rightarrow> error + ref option" where
  "states_lookup m key =
     (if \<not> hashable key then Inl (Unhashable key)
      else case key of VStr n \<Rightarrow> Inr (map_of (states m) n) | _ \<Rightarrow> Inr None)"

definition FSM_add_transition ::
  "heap \<Rightarrow> FSM \<Rightarrow> pyval \<Rightarrow> pyval \<Rightarrow> pyval \<Rightarrow> (unit, heap) outcome" where
  "FSM_add_transition h m from_state_name input_symbol to_state_name =
     (case states_lookup m from_state_name of
        Inl e \<Rightarrow> (Inl e, h)
      | Inr None \<Rightarrow> (Inl (UnknownSourceState from_state_name), h)
      | Inr (Some from_state) \<Rightarrow>
         (case states_lookup m to_state_name of
            Inl e \<Rightarrow> (Inl e, h)
          | Inr None \<Rightarrow> (Inl (UnknownTargetState to_state_name), h)
          | Inr (Some to_state) \<Rightarrow>
              if \<not> isinstance_int input_symbol then (Inl SymbolNotInt, h)
              else State_add_transition h from_state input_symbol (VObj to_state)))"

text \<open>
  The \<open>for\<close> loop of \<open>process_input\<close>: each iteration reads the transition of the
  current state and either raises, leaving \<open>current_state\<close> as the iterations before
  set it, or assigns \<open>current_state\<close>. It does not touch the store.
\<close>

fun process_loop :: "heap \<Rightarrow> FSM \<Rightarrow> pyval list \<Rightarrow> (ref, FSM) outcome" where
  "process_loop h m [] = (Inr (current_state m), m)"
| "process_loop h m (input_symbol # rest) =
     (case get_next_state h (current_state m) input_symbol of
        Inl e \<Rightarrow> (Inl e, m)
      | Inr None \<Rightarrow> (Inl (NoTransition input_symbol (name (h ! current_state m))), m)
      | Inr (Some next_state) \<Rightarrow> process_loop h (m\<lparr>current_state := next_state\<rparr>) rest)"

definition process_input :: "heap \<Rightarrow> FSM \<Rightarrow> pyval \<Rightarrow> (ref, FSM) outcome" where
  "process_input h m input_sequence =
     (case py_iter input_sequence of
        None \<Rightarrow> (Inl NotIterable, m)
      | Some symbols \<Rightarrow>
          if \<not> truthy input_sequence then (Inl EmptyInput, m)
          else process_loop h m symbols)"

text \<open>\<open>FSM.is_accepting\<close> reads the flag of the current state and changes nothing.\<close>

definition FSM_is_accepting :: "heap \<Rightarrow> FSM \<Rightarrow> bool" where
  "FSM_is_accepting h m = is_accepting (h ! current_state m)"

section \<open>class ModThreeFSM\<close>

text \<open>
  \<open>int(s)\<close> for a string: surrounding whitespace is stripped, one sign may lead, and the
  rest is decimal digits, where single underscores may separate digits. Characters are the
  code points below 256.
\<close>

definition is_space :: "char \<Rightarrow> bool" where
  "is_space c = (of_char c \<in> {9, 10, 11, 12, 13, 28, 29, 30, 31, 32, 133, 160 :: nat})"

definition strip :: "string \<Rightarrow> string" where
  "strip s = rev (dropWhile is_space (rev (dropWhile is_space s)))"

definition digit_value :: "char \<Rightarrow> int option" where
  "digit_value c =
     (if 48 \<le> (of_char c :: nat) \<and> (of_char c :: nat) \<le> 57
      then Some (int (of_char c) - 48) else None)"

fun digits_from :: "int \<Rightarrow> string \<Rightarrow> int option" where
  "digits_from acc [] = Some acc"
| "digits_from acc [c] =
     (case digit_value c of None \<Rightarrow> None | Some v \<Rightarrow> Some (10 * acc + v))"
| "digits_from acc (c # d # ds) =
     (if c = CHR ''_''
      then (case digit_value d of None \<Rightarrow> None | Some v \<Rightarrow> digits_from (10 * acc + v) ds)
      else (case digit_value c of None \<Rightarrow> None | Some v \<Rightarrow> digits_from (10 * acc + v) (d # ds)))"

definition unsigned_literal :: "string \<Rightarrow> int option" where
  "unsigned_literal s =
     (case s of
        [] \<Rightarrow> None
      | c # cs \<Rightarrow> (case digit_value c of None \<Rightarrow> None | Some v \<Rightarrow> digits_from v cs))"

definition py_int :: "string \<Rightarrow> int option" where
  "py_int s =
     (case strip s of
        [] \<Rightarrow> None
      | c # cs \<Rightarrow>
          if c = CHR ''+'' then unsigned_literal cs
          else if c = CHR ''-'' then map_option uminus (unsigned_literal cs)
          else unsigned_literal (c # cs))"

text \<open>
  The constructor: three State objects are allocated, the machine is built on \<open>s0\<close>,
  \<open>s1\<close> and \<open>s2\<close> are registered, and the six transitions are added to the State
  objects directly. \<open>seq\<close> runs the next statement unless the one before raised.
\<close>

definition seq :: "('a, 's) outcome \<Rightarrow> ('s \<Rightarrow> ('b, 's) outcome) \<Rightarrow> ('b, 's) outcome" where
  "seq r f = (case r of (Inl e, s) \<Rightarrow> (Inl e, s) | (Inr _, s) \<Rightarrow> f s)"

definition ModThreeFSM_init :: "heap \<Rightarrow> error + (FSM \<times> heap)" where
  "ModThreeFSM_init h =
     (case State_init h (VStr ''S0'') (VBool True) of Inl e \<Rightarrow> Inl e | Inr (s0, h0) \<Rightarrow>
     (case State_init h0 (VStr ''S1'') (VBool True) of Inl e \<Rightarrow> Inl e | Inr (s1, h1) \<Rightarrow>
     (case State_init h1 (VStr ''S2'') (VBool True) of Inl e \<Rightarrow> Inl e | Inr (s2, h2) \<Rightarrow>
     (case FSM_init h2 (VObj s0) of Inl e \<Rightarrow> Inl e | Inr m0 \<Rightarrow>
     (case seq (add_state h2 m0 (VObj s1)) (\<lambda>m. add_state h2 m (VObj s2)) of
        (Inl e, _) \<Rightarrow> Inl e
      | (Inr _, m) \<Rightarrow>
     (case seq (State_add_transition h2 s0 (VInt 0) (VObj s0)) (\<lambda>h.
           seq (State_add_transition h s0 (VInt 1) (VObj s1)) (\<lambda>h.
           seq (State_add_transition h s1 (VInt 0) (VObj s2)) (\<lambda>h.
           seq (State_add_transition h s1 (VInt 1) (VObj s0)) (\<lambda>h.
           seq (State_add_transition h s2 (VInt 0) (VObj s1)) (\<lambda>h.
                State_add_transition h s2 (VInt 1) (VObj s2)))))) of
        (Inl e, _) \<Rightarrow> Inl e
      | (Inr _, h') \<Rightarrow> Inr (m, h')))))))"

text \<open>
  The validation loop of \<open>process_three_mod_input\<close>: the first element that is not an
  \<open>int\<close>, or is not in \<open>[0, 1]\<close>, raises. \<open>val in [0, 1]\<close> compares with \<open>==\<close>.
\<close>

definition in_0_1 :: "pyval \<Rightarrow> bool" where
  "in_0_1 v = (int_value v = Some 0 \<or> int_value v = Some 1)"

fun validate :: "pyval list \<Rightarrow> error option" where
  "validate [] = None"
| "validate (val # rest) =
     (if \<not> isinstance_int val then Some (ElementNotInt val)
      else if \<not> in_0_1 val then Some (ElementNotBinary val)
      else validate rest)"

text \<open>The decoding of the last line, \<open>int(final_state.name[1:])\<close>.\<close>

definition state_remainder :: "heap \<Rightarrow> ref \<Rightarrow> error + int" where
  "state_remainder h final_state =
     (case py_int (drop 1 (name (h ! final_state))) of
        None \<Rightarrow> Inl (InvalidLiteral (drop 1 (name (h ! final_state))))
      | Some r \<Rightarrow> Inr r)"

definition process_three_mod_input :: "heap \<Rightarrow> FSM \<Rightarrow> pyval \<Rightarrow> (int, FSM) outcome" where
  "process_three_mod_input h m input_sequence =
     (case input_sequence of
        VList xs \<Rightarrow>
          (case validate xs of
             Some e \<Rightarrow> (Inl e, m)
           | None \<Rightarrow>
               (case process_input h m input_sequence of
                  (Inl e, m') \<Rightarrow> (Inl e, m')
                | (Inr final_state, m') \<Rightarrow> (state_remainder h final_state, m')))
      | _ \<Rightarrow> (Inl (NotAList input_sequence), m))"

text \<open>
  \<open>binary_to_decimal\<close> takes no \<open>self\<close>: it is a function of the bit sequence alone.
  Python integers are unbounded, so the sum is an \<open>int\<close>.
\<close>

definition binary_to_decimal :: "int list \<Rightarrow> int" where
  "binary_to_decimal input_sequence =
     sum_list (map (\<lambda>(idx, bit). bit * 2 ^ idx) (List.enumerate 0 (rev input_sequence)))"

section \<open>Notions of the specification\<close>

text \<open>
  The left fold of the specification over the transition relation, with
  \<open>step(s, symbol) = s.get_next_state(symbol)\<close>: \<open>None\<close> from the first symbol on that has
  no transition.
\<close>

definition step :: "heap \<Rightarrow> ref option \<Rightarrow> int \<Rightarrow> ref option" where
  "step h s symbol =
     (case s of
        None \<Rightarrow> None
      | Some r \<Rightarrow> (case get_next_state h r (VInt symbol) of Inr (Some t) \<Rightarrow> Some t | _ \<Rightarrow> None))"

definition fold_path :: "heap \<Rightarrow> ref \<Rightarrow> int list \<Rightarrow> ref option" where
  "fold_path h start sequence = foldl (step h) (Some start) sequence"

text \<open>
  The invariant of the Machine: \<open>current_state\<close> is one of the objects in the registry.
  \<open>targets_registered\<close>: every transition of every registered state leads to a
  registered state.
\<close>

definition current_registered :: "FSM \<Rightarrow> bool" where
  "current_registered m = (current_state m \<in> snd ` set (states m))"

definition targets_registered :: "heap \<Rightarrow> FSM \<Rightarrow> bool" where
  "targets_registered h m =
     (\<forall>r \<in> snd ` set (states m). \<forall>t \<in> snd ` set (transitions (h ! r)). t \<in> snd ` set (states m))"

text \<open>An element that passes the validation loop of \<open>process_three_mod_input\<close>.\<close>

definition is_bit :: "pyval \<Rightarrow> bool" where
  "is_bit v = (isinstance_int v \<and> in_0_1 v)"

text \<open>\<open>type(x) is list\<close>, the first check of \<open>process_three_mod_input\<close>.\<close>

fun type_is_list :: "pyval \<Rightarrow> bool" where
  "type_is_list (VList _) = True"
| "type_is_list _ = False"

text \<open>The integer a validated element stands for (\<open>True\<close> counts as 1, \<open>False\<close> as 0).\<close>

definition bit_value :: "pyval \<Rightarrow> int" where
  "bit_value v = (case int_value v of Some i \<Rightarrow> i | None \<Rightarrow> 0)"

text \<open>
  The three State objects that the constructor of \<open>ModThreeFSM\<close> leaves in the store,
  when the store held \<open>b\<close> objects before (\<open>ModThreeFSM_init_result\<close> below).
\<close>

definition mod3_objects :: "nat \<Rightarrow> State list" where
  "mod3_objects b =
     [\<lparr>name = ''S0'', is_accepting = True, transitions = [(0, b), (1, Suc b)]\<rparr>,
      \<lparr>name = ''S1'', is_accepting = True, transitions = [(0, Suc (Suc b)), (1, b)]\<rparr>,
      \<lparr>name = ''S2'', is_accepting = True, transitions = [(0, Suc b), (1, Suc (Suc b))]\<rparr>]"

section \<open>The fold of process_input\<close>

lemma foldl_step_None: "foldl (step h) None sequence = None"
  by (induction sequence) (simp_all add: step_def)

lemma process_loop_fold:
  "fold_path h (current_state m) sequence = Some final \<Longrightarrow>
   process_loop h m (map VInt sequence) = (Inr final, m\<lparr>current_state := final\<rparr>)"
proof (induction sequence arbitrary: m)
  case Nil
  then show ?case by (simp add: fold_path_def)
next
  case (Cons symbol rest)
  from Cons.prems have run: "foldl (step h) (step h (Some (current_state m)) symbol) rest = Some final"
    by (simp add: fold_path_def)
  then obtain t where t: "step h (Some (current_state m)) symbol = Some t"
    by (cases "step h (Some (current_state m)) symbol") (simp_all add: foldl_step_None)
  then have nxt: "get_next_state h (current_state m) (VInt symbol) = Inr (Some t)"
    by (auto simp: step_def split: sum.splits option.splits)
  from run t have "fold_path h (current_state (m\<lparr>current_state := t\<rparr>)) rest = Some final"
    by (simp add: fold_path_def)
  from Cons.IH [OF this] nxt show ?case by simp
qed

lemma process_loop_append:
  "process_loop h m xs = (Inr r, m') \<Longrightarrow> process_loop h m (xs @ ys) = process_loop h m' ys"
  by (induction xs arbitrary: m) (auto split: sum.splits option.splits)

text \<open>
  C2. For every non-empty integer sequence on which the left fold of
  \<open>step(s, symbol) = s.get_next_state(symbol)\<close> from the current state is defined at every
  symbol, \<open>process_input\<close> returns the state the fold ends in, and afterwards
  \<open>current_state\<close> is that state.
\<close>

theorem process_input_is_fold:
  assumes "sequence \<noteq> []"
    and "fold_path h (current_state m) sequence = Some final"
  shows "process_input h m (VList (map VInt sequence)) = (Inr final, m\<lparr>current_state := final\<rparr>)"
  using assms by (simp add: process_input_def process_loop_fold)

theorem process_input_is_fold_witness:
  "[0, 1, 0] \<noteq> ([] :: int list) \<and>
   fold_path [\<lparr>name = ''A'', is_accepting = False, transitions = [(0, 1)]\<rparr>,
              \<lparr>name = ''B'', is_accepting = True, transitions = [(1, 0)]\<rparr>]
     (current_state \<lparr>current_state = 0, states = [(''A'', 0), (''B'', 1)]\<rparr>) [0, 1, 0] = Some 1 \<and>
   process_input [\<lparr>name = ''A'', is_accepting = False, transitions = [(0, 1)]\<rparr>,
                  \<lparr>name = ''B'', is_accepting = True, transitions = [(1, 0)]\<rparr>]
     \<lparr>current_state = 0, states = [(''A'', 0), (''B'', 1)]\<rparr> (VList (map VInt [0, 1, 0]))
   = (Inr 1, \<lparr>current_state = 1, states = [(''A'', 0), (''B'', 1)]\<rparr>)"
proof -
  let ?h = "[\<lparr>name = ''A'', is_accepting = False, transitions = [(0, 1)]\<rparr>,
             \<lparr>name = ''B'', is_accepting = True, transitions = [(1, 0)]\<rparr>]"
  let ?m = "\<lparr>current_state = 0, states = [(''A'', 0), (''B'', 1)]\<rparr>"
  have ne: "[0, 1, 0] \<noteq> ([] :: int list)" by simp
  have run: "fold_path ?h (current_state ?m) [0, 1, 0] = Some 1"
    by (simp add: fold_path_def step_def get_next_state_def)
  from process_input_is_fold [OF ne run] ne run show ?thesis by simp
qed

text \<open>
  C3. When the first \<open>k\<close> symbols each have a transition from the states reached in turn
  and the next symbol has none from the state \<open>r\<close> reached after them,
  \<open>process_input\<close> raises the no-transition error for that symbol and the name of
  \<open>r\<close>, and leaves \<open>current_state\<close> at \<open>r\<close>: the progress made is kept, and the failing
  symbol does not advance the state.
\<close>

theorem process_input_no_transition:
  assumes "fold_path h (current_state m) pre = Some r"
    and "get_next_state h r (VInt symbol) = Inr None"
  shows "process_input h m (VList (map VInt (pre @ symbol # rest)))
           = (Inl (NoTransition (VInt symbol) (name (h ! r))), m\<lparr>current_state := r\<rparr>)"
proof -
  have "process_loop h m (map VInt pre) = (Inr r, m\<lparr>current_state := r\<rparr>)"
    using assms(1) by (rule process_loop_fold)
  then have "process_loop h m (map VInt pre @ map VInt (symbol # rest))
               = process_loop h (m\<lparr>current_state := r\<rparr>) (map VInt (symbol # rest))"
    by (rule process_loop_append)
  with assms(2) show ?thesis by (simp add: process_input_def)
qed

theorem process_input_no_transition_witness:
  "fold_path [\<lparr>name = ''A'', is_accepting = False, transitions = [(0, 1)]\<rparr>,
              \<lparr>name = ''B'', is_accepting = True, transitions = [(1, 0)]\<rparr>]
     (current_state \<lparr>current_state = 1, states = [(''A'', 0), (''B'', 1)]\<rparr>) [1, 0, 1] = Some 0 \<and>
   get_next_state [\<lparr>name = ''A'', is_accepting = False, transitions = [(0, 1)]\<rparr>,
                   \<lparr>name = ''B'', is_accepting = True, transitions = [(1, 0)]\<rparr>] 0 (VInt 7) = Inr None \<and>
   process_input [\<lparr>name = ''A'', is_accepting = False, transitions = [(0, 1)]\<rparr>,
                  \<lparr>name = ''B'', is_accepting = True, transitions = [(1, 0)]\<rparr>]
     \<lparr>current_state = 1, states = [(''A'', 0), (''B'', 1)]\<rparr> (VList (map VInt [1, 0, 1, 7, 0]))
   = (Inl (NoTransition (VInt 7) ''A''), \<lparr>current_state = 0, states = [(''A'', 0), (''B'', 1)]\<rparr>)"
proof -
  let ?h = "[\<lparr>name = ''A'', is_accepting = False, transitions = [(0, 1)]\<rparr>,
             \<lparr>name = ''B'', is_accepting = True, transitions = [(1, 0)]\<rparr>]"
  let ?m = "\<lparr>current_state = 1, states = [(''A'', 0), (''B'', 1)]\<rparr>"
  have run: "fold_path ?h (current_state ?m) [1, 0, 1] = Some 0"
    by (simp add: fold_path_def step_def get_next_state_def)
  have none: "get_next_state ?h 0 (VInt 7) = Inr None"
    by (simp add: get_next_state_def)
  from process_input_no_transition [OF run none, of "[0]"] run none show ?thesis by simp
qed

section \<open>State.add_transition and State.get_next_state\<close>

lemma map_of_snoc: "k \<notin> fst ` set xs \<Longrightarrow> map_of (xs @ [(k, v)]) k = Some v"
  by (induction xs) auto

text \<open>
  C6. For every allocated State object and every integer symbol: when
  \<open>add_transition(symbol, target)\<close> succeeds, \<open>get_next_state(symbol)\<close> returns that
  target right afterwards; and when the symbol already has an entry, \<open>add_transition\<close>
  raises the duplicate-transition error, the store is left as it was, and the symbol still
  leads to the target registered before.
\<close>

theorem add_transition_then_lookup:
  "(self < length h \<and> State_add_transition h self (VInt symbol) target = (Inr (), h')
      \<longrightarrow> (\<exists>t. target = VObj t \<and> get_next_state h' self (VInt symbol) = Inr (Some t)))
   \<and> (get_next_state h self (VInt symbol) = Inr (Some old)
      \<longrightarrow> State_add_transition h self (VInt symbol) target = (Inl (DuplicateTransition symbol), h)
          \<and> get_next_state (snd (State_add_transition h self (VInt symbol) target)) self (VInt symbol)
              = Inr (Some old))"
proof (intro conjI impI)
  assume a: "self < length h \<and> State_add_transition h self (VInt symbol) target = (Inr (), h')"
  then obtain t where t: "target = VObj t"
    and fresh: "symbol \<notin> fst ` set (transitions (h ! self))"
    and h': "h' = h[self := (h ! self)\<lparr>transitions := transitions (h ! self) @ [(symbol, t)]\<rparr>]"
    by (auto simp: State_add_transition_def split: if_splits pyval.splits)
  from a h' have "transitions (h' ! self) = transitions (h ! self) @ [(symbol, t)]"
    by simp
  moreover from fresh have "map_of (transitions (h ! self) @ [(symbol, t)]) symbol = Some t"
    by (rule map_of_snoc)
  ultimately have "map_of (transitions (h' ! self)) symbol = Some t"
    by (simp only:)
  with t show "\<exists>t. target = VObj t \<and> get_next_state h' self (VInt symbol) = Inr (Some t)"
    by (simp add: get_next_state_def)
next
  assume old: "get_next_state h self (VInt symbol) = Inr (Some old)"
  then have "map_of (transitions (h ! self)) symbol = Some old"
    by (simp add: get_next_state_def)
  then have "symbol \<in> fst ` set (transitions (h ! self))"
    by (metis domI dom_map_of_conv_image_fst)
  then show dup: "State_add_transition h self (VInt symbol) target = (Inl (DuplicateTransition symbol), h)"
    by (simp add: State_add_transition_def)
  from old show "get_next_state (snd (State_add_transition h self (VInt symbol) target)) self (VInt symbol)
                   = Inr (Some old)"
    by (simp add: dup)
qed

theorem add_transition_then_lookup_witness:
  "(0::nat) < length [\<lparr>name = ''S1'', is_accepting = False, transitions = []\<rparr>,
                      \<lparr>name = ''S2'', is_accepting = False, transitions = []\<rparr>]
   \<and> State_add_transition [\<lparr>name = ''S1'', is_accepting = False, transitions = []\<rparr>,
                            \<lparr>name = ''S2'', is_accepting = False, transitions = []\<rparr>] 0 (VInt 0) (VObj 1)
       = (Inr (), [\<lparr>name = ''S1'', is_accepting = False, transitions = [(0, 1)]\<rparr>,
                   \<lparr>name = ''S2'', is_accepting = False, transitions = []\<rparr>])
   \<and> get_next_state [\<lparr>name = ''S1'', is_accepting = False, transitions = [(0, 1)]\<rparr>,
                      \<lparr>name = ''S2'', is_accepting = False, transitions = []\<rparr>] 0 (VInt 0) = Inr (Some 1)
   \<and> State_add_transition [\<lparr>name = ''S1'', is_accepting = False, transitions = [(0, 1)]\<rparr>,
                            \<lparr>name = ''S2'', is_accepting = False, transitions = []\<rparr>] 0 (VInt 0) (VObj 0)
       = (Inl (DuplicateTransition 0),
          [\<lparr>name = ''S1'', is_accepting = False, transitions = [(0, 1)]\<rparr>,
           \<lparr>name = ''S2'', is_accepting = False, transitions = []\<rparr>])"
proof -
  let ?h = "[\<lparr>name = ''S1'', is_accepting = False, transitions = []\<rparr>,
             \<lparr>name = ''S2'', is_accepting = False, transitions = []\<rparr>]"
  let ?h' = "[\<lparr>name = ''S1'', is_accepting = False, transitions = [(0, 1)]\<rparr>,
              \<lparr>name = ''S2'', is_accepting = False, transitions = []\<rparr>]"
  have alloc: "(0::nat) < length ?h" by simp
  have added: "State_add_transition ?h 0 (VInt 0) (VObj 1) = (Inr (), ?h')"
    by (simp add: State_add_transition_def)
  from add_transition_then_lookup [where h = ?h and self = 0 and symbol = 0
      and target = "VObj 1" and h' = ?h'] alloc added
  have found: "get_next_state ?h' 0 (VInt 0) = Inr (Some 1)"
    by simp
  from add_transition_then_lookup [where h = ?h' and self = 0 and symbol = 0
      and target = "VObj 0" and old = 1] found
  have "State_add_transition ?h' 0 (VInt 0) (VObj 0) = (Inl (DuplicateTransition 0), ?h')"
    by simp
  with alloc added found show ?thesis by simp
qed

section \<open>Validation in process_three_mod_input\<close>

lemma validate_pass: "\<forall>u \<in> set xs. is_bit u \<Longrightarrow> validate (xs @ ys) = validate ys"
  by (induction xs) (simp_all add: is_bit_def)

lemma validate_None: "validate xs = None \<longleftrightarrow> (\<forall>u \<in> set xs. is_bit u)"
  by (induction xs) (auto simp: is_bit_def)

text \<open>
  C7. \<open>process_three_mod_input\<close> raises the not-a-sequence error for every argument
  that is not a list, and the empty-input error for the empty list; for a list whose first
  element that is not an integer equal to 0 or 1 is \<open>v\<close>, it raises an invalid-symbol
  error that reports \<open>v\<close>. In each case the machine is returned as it was: validation
  comes before any transition.
\<close>

theorem mod_three_validation:
  "(\<not> type_is_list arg \<longrightarrow> process_three_mod_input h m arg = (Inl (NotAList arg), m))
   \<and> process_three_mod_input h m (VList []) = (Inl EmptyInput, m)
   \<and> ((\<forall>u \<in> set pre. is_bit u) \<and> \<not> is_bit v \<longrightarrow>
        process_three_mod_input h m (VList (pre @ v # rest))
          = (Inl (if isinstance_int v then ElementNotBinary v else ElementNotInt v), m))"
proof (intro conjI impI)
  assume "\<not> type_is_list arg"
  then show "process_three_mod_input h m arg = (Inl (NotAList arg), m)"
    by (cases arg) (simp_all add: process_three_mod_input_def)
next
  show "process_three_mod_input h m (VList []) = (Inl EmptyInput, m)"
    by (simp add: process_three_mod_input_def process_input_def)
next
  assume a: "(\<forall>u \<in> set pre. is_bit u) \<and> \<not> is_bit v"
  then have "validate (pre @ v # rest) = validate (v # rest)"
    by (simp add: validate_pass)
  with a show "process_three_mod_input h m (VList (pre @ v # rest))
          = (Inl (if isinstance_int v then ElementNotBinary v else ElementNotInt v), m)"
    by (auto simp: process_three_mod_input_def is_bit_def)
qed

theorem mod_three_validation_witness:
  "\<not> type_is_list (VStr ''101'')
   \<and> process_three_mod_input (mod3_objects 0)
        \<lparr>current_state = 1, states = [(''S0'', 0), (''S1'', 1), (''S2'', 2)]\<rparr> (VStr ''101'')
       = (Inl (NotAList (VStr ''101'')),
          \<lparr>current_state = 1, states = [(''S0'', 0), (''S1'', 1), (''S2'', 2)]\<rparr>)
   \<and> is_bit (VInt 1) \<and> \<not> is_bit (VInt 2)
   \<and> process_three_mod_input (mod3_objects 0)
        \<lparr>current_state = 1, states = [(''S0'', 0), (''S1'', 1), (''S2'', 2)]\<rparr>
        (VList [VInt 1, VInt 2, VInt 1])
       = (Inl (ElementNotBinary (VInt 2)),
          \<lparr>current_state = 1, states = [(''S0'', 0), (''S1'', 1), (''S2'', 2)]\<rparr>)"
proof -
  let ?m = "\<lparr>current_state = 1, states = [(''S0'', 0), (''S1'', 1), (''S2'', 2)]\<rparr>"
  have nl: "\<not> type_is_list (VStr ''101'')" by simp
  have ok: "is_bit (VInt 1)" and bad: "\<not> is_bit (VInt 2)"
    by (simp_all add: is_bit_def isinstance_int_def in_0_1_def)
  from mod_three_validation [where arg = "VStr ''101''" and h = "mod3_objects 0" and m = ?m
      and pre = "[VInt 1]" and v = "VInt 2" and rest = "[VInt 1]"] nl ok bad
  show ?thesis by (simp add: isinstance_int_def)
qed

section \<open>binary_to_decimal\<close>

lemma binary_to_decimal_Cons:
  "binary_to_decimal (b # bs) = b * 2 ^ length bs + binary_to_decimal bs"
  by (simp add: binary_to_decimal_def enumerate_append_eq)

lemma binary_to_decimal_append:
  "binary_to_decimal (xs @ ys) = binary_to_decimal xs * 2 ^ length ys + binary_to_decimal ys"
proof (induction xs)
  case Nil
  show ?case by (simp add: binary_to_decimal_def)
next
  case (Cons x xs)
  show ?case
    unfolding append_Cons binary_to_decimal_Cons Cons.IH
    by (simp add: algebra_simps power_add)
qed

text \<open>
  C8. \<open>binary_to_decimal\<close> of a sequence of \<open>n\<close> bits, most significant first, is the
  sum of \<open>bit[i] * 2^(n-1-i)\<close>. It is a function of the sequence alone (it takes neither
  store nor machine), and the equation is one between unbounded integers, so it is exact
  for every length, 30 bits and more included.
\<close>

theorem binary_to_decimal_sum:
  "binary_to_decimal bits = (\<Sum>i<length bits. bits ! i * 2 ^ (length bits - 1 - i))"
proof (induction bits)
  case Nil
  show ?case by (simp add: binary_to_decimal_def)
next
  case (Cons b bs)
  have "(\<Sum>i<length (b # bs). (b # bs) ! i * 2 ^ (length (b # bs) - 1 - i))
          = (\<Sum>i<Suc (length bs). (b # bs) ! i * 2 ^ (length bs - i))"
    by simp
  also have "\<dots> = b * 2 ^ length bs + (\<Sum>i<length bs. bs ! i * 2 ^ (length bs - Suc i))"
    by (subst sum.lessThan_Suc_shift) simp
  also have "\<dots> = b * 2 ^ length bs + binary_to_decimal bs"
    by (simp add: Cons.IH)
  finally show ?case
    by (simp add: binary_to_decimal_Cons)
qed

section \<open>The mod-three machine\<close>

lemma ModThreeFSM_init_result:
  "ModThreeFSM_init h =
     Inr (\<lparr>current_state = length h,
           states = [(''S0'', length h), (''S1'', Suc (length h)), (''S2'', Suc (Suc (length h)))]\<rparr>,
          h @ mod3_objects (length h))"
  by (simp add: ModThreeFSM_init_def State_init_def FSM_init_def add_state_def seq_def
      State_add_transition_def nth_append list_update_append mod3_objects_def)

lemma less_3_cases: "k < (3::nat) \<Longrightarrow> k = 0 \<or> k = 1 \<or> k = 2"
  by arith

lemma mod3_objects_nth:
  "(h @ mod3_objects (length h)) ! (length h + k) = mod3_objects (length h) ! k"
  by (simp add: nth_append)

lemma mod3_transitions:
  assumes "k < 3" and "b = 0 \<or> b = 1"
  shows "map_of (transitions (mod3_objects n ! k)) b = Some (n + nat ((int k * 2 + b) mod 3))"
proof -
  from assms(1) consider "k = 0" | "k = 1" | "k = 2" by arith
  then show ?thesis
  proof cases
    case 1
    with assms(2) show ?thesis by (auto simp: mod3_objects_def)
  next
    case 2
    with assms(2) show ?thesis by (auto simp: mod3_objects_def)
  next
    case 3
    with assms(2) show ?thesis by (auto simp: mod3_objects_def)
  qed
qed

lemma is_bit_cases:
  "is_bit v \<Longrightarrow> hashable v \<and> int_value v = Some (bit_value v) \<and> (bit_value v = 0 \<or> bit_value v = 1)"
  by (cases v) (auto simp: is_bit_def in_0_1_def isinstance_int_def bit_value_def)

lemma mod3_next_state:
  assumes "k < 3" and "is_bit v"
  shows "get_next_state (h @ mod3_objects (length h)) (length h + k) v
           = Inr (Some (length h + nat ((int k * 2 + bit_value v) mod 3)))"
proof -
  from is_bit_cases [OF assms(2)]
  have hv: "hashable v" and iv: "int_value v = Some (bit_value v)"
    and b: "bit_value v = 0 \<or> bit_value v = 1" by simp_all
  from hv iv show ?thesis
    by (simp add: get_next_state_def mod3_objects_nth mod3_transitions [OF assms(1) b])
qed

lemma mod3_remainder:
  "k < 3 \<Longrightarrow> state_remainder (h @ mod3_objects (length h)) (length h + k) = Inr (int k)"
  by (auto dest!: less_3_cases
      simp: state_remainder_def mod3_objects_def nth_append py_int_def strip_def is_space_def
            unsigned_literal_def digit_value_def)

lemma update_current_same: "current_state m = c \<Longrightarrow> m\<lparr>current_state := c\<rparr> = m"
  by (cases m) simp

lemma mod3_loop:
  assumes "\<forall>u \<in> set xs. is_bit u" and "k < 3" and "current_state m = length h + k"
  shows "process_loop (h @ mod3_objects (length h)) m xs
           = (Inr (length h + nat ((int k * 2 ^ length xs + binary_to_decimal (map bit_value xs)) mod 3)),
              m\<lparr>current_state := length h + nat ((int k * 2 ^ length xs + binary_to_decimal (map bit_value xs)) mod 3)\<rparr>)"
  using assms
proof (induction xs arbitrary: k m)
  case Nil
  then show ?case by (simp add: binary_to_decimal_def update_current_same)
next
  case (Cons v vs)
  let ?k = "nat ((int k * 2 + bit_value v) mod 3)"
  have k': "?k < 3" by simp 
  have nxt: "get_next_state (h @ mod3_objects (length h)) (current_state m) v = Inr (Some (length h + ?k))"
    using Cons.prems by (simp add: mod3_next_state)
  have cur: "current_state (m\<lparr>current_state := length h + ?k\<rparr>) = length h + ?k" by simp
  have vs: "\<forall>u \<in> set vs. is_bit u" using Cons.prems by simp
  have arith: "(int ?k * 2 ^ length vs + binary_to_decimal (map bit_value vs)) mod 3
     = (int k * 2 ^ length (v # vs) + binary_to_decimal (map bit_value (v # vs))) mod 3"
  proof -
    have "(int ?k * 2 ^ length vs + binary_to_decimal (map bit_value vs)) mod 3
        = (((int k * 2 + bit_value v) mod 3) * 2 ^ length vs + binary_to_decimal (map bit_value vs)) mod 3"
      by simp
    also have "\<dots> = ((int k * 2 + bit_value v) * 2 ^ length vs + binary_to_decimal (map bit_value vs)) mod 3"
      by (metis mod_add_left_eq mod_mult_left_eq)
    also have "\<dots> = (int k * 2 ^ length (v # vs) + binary_to_decimal (map bit_value (v # vs))) mod 3"
      by (simp add: binary_to_decimal_Cons algebra_simps)
    finally show ?thesis .
  qed
  have "process_loop (h @ mod3_objects (length h)) m (v # vs)
          = process_loop (h @ mod3_objects (length h)) (m\<lparr>current_state := length h + ?k\<rparr>) vs"
    using nxt by simp
  also note Cons.IH [OF vs k' cur, unfolded arith]
  finally show ?case by simp
qed

lemma mod3_call:
  assumes "xs \<noteq> []" and "\<forall>u \<in> set xs. is_bit u" and "k < 3"
    and "current_state m = length h + k"
  shows "process_three_mod_input (h @ mod3_objects (length h)) m (VList xs)
           = (Inr ((int k * 2 ^ length xs + binary_to_decimal (map bit_value xs)) mod 3),
              m\<lparr>current_state :=
                   length h + nat ((int k * 2 ^ length xs + binary_to_decimal (map bit_value xs)) mod 3)\<rparr>)"
proof -
  let ?r = "nat ((int k * 2 ^ length xs + binary_to_decimal (map bit_value xs)) mod 3)"
  have v: "validate xs = None"
    using assms(2) by (simp add: validate_None)
  have loop: "process_input (h @ mod3_objects (length h)) m (VList xs)
                = (Inr (length h + ?r), m\<lparr>current_state := length h + ?r\<rparr>)"
    using assms(1) mod3_loop [OF assms(2,3,4)] by (simp add: process_input_def)
  have "?r < 3" by simp
  then have rem: "state_remainder (h @ mod3_objects (length h)) (length h + ?r) = Inr (int ?r)"
    by (rule mod3_remainder)
  have "int ?r = (int k * 2 ^ length xs + binary_to_decimal (map bit_value xs)) mod 3"
    by simp
  with v loop rem show ?thesis
    by (simp add: process_three_mod_input_def)
qed

lemma bits_valid: "set bits \<subseteq> {0, 1} \<Longrightarrow> \<forall>u \<in> set (map VInt bits). is_bit u"
  by (auto simp: is_bit_def isinstance_int_def in_0_1_def)

lemma bit_value_VInt: "map (bit_value \<circ> VInt) bits = bits"
  by (induction bits) (simp_all add: bit_value_def)

lemma init_cases:
  "ModThreeFSM_init h = Inr (m, h') \<Longrightarrow>
     h' = h @ mod3_objects (length h) \<and>
     m = \<lparr>current_state = length h,
          states = [(''S0'', length h), (''S1'', Suc (length h)), (''S2'', Suc (Suc (length h)))]\<rparr>"
  by (simp add: ModThreeFSM_init_result)

text \<open>
  C1. On a freshly constructed ModThreeFSM (current state S0), for every sequence of
  between 1 and 30 bits, each 0 or 1, \<open>process_three_mod_input\<close> returns
  \<open>binary_to_decimal(seq) % 3\<close>.
\<close>

theorem mod_three_correct:
  assumes "ModThreeFSM_init h = Inr (m, h')"
    and "1 \<le> length bits" and "length bits \<le> 30" and "set bits \<subseteq> {0, 1}"
  shows "fst (process_three_mod_input h' m (VList (map VInt bits)))
           = Inr (binary_to_decimal bits mod 3)"
proof -
  from init_cases [OF assms(1)] have h': "h' = h @ mod3_objects (length h)"
    and cur: "current_state m = length h + 0" by simp_all
  from assms(2) have ne: "map VInt bits \<noteq> []" by auto
  from mod3_call [OF ne bits_valid [OF assms(4)] _ cur] show ?thesis
    by (simp add: h' bit_value_VInt)
qed

theorem mod_three_correct_witness:
  "ModThreeFSM_init [] =
     Inr (\<lparr>current_state = 0, states = [(''S0'', 0), (''S1'', 1), (''S2'', 2)]\<rparr>, mod3_objects 0)
   \<and> 1 \<le> length [1, 0, 1, 1, 0, 1, 1, 0, 1, 1 :: int]
   \<and> length [1, 0, 1, 1, 0, 1, 1, 0, 1, 1 :: int] \<le> 30
   \<and> set [1, 0, 1, 1, 0, 1, 1, 0, 1, 1 :: int] \<subseteq> {0, 1}
   \<and> binary_to_decimal [1, 0, 1, 1, 0, 1, 1, 0, 1, 1] = 731
   \<and> fst (process_three_mod_input (mod3_objects 0)
            \<lparr>current_state = 0, states = [(''S0'', 0), (''S1'', 1), (''S2'', 2)]\<rparr>
            (VList (map VInt [1, 0, 1, 1, 0, 1, 1, 0, 1, 1]))) = Inr 2"
proof -
  let ?m = "\<lparr>current_state = 0, states = [(''S0'', 0), (''S1'', 1), (''S2'', 2)]\<rparr>"
  let ?bits = "[1, 0, 1, 1, 0, 1, 1, 0, 1, 1 :: int]"
  have init: "ModThreeFSM_init [] = Inr (?m, mod3_objects 0)"
    by (simp add: ModThreeFSM_init_def State_init_def FSM_init_def add_state_def seq_def
        State_add_transition_def mod3_objects_def)
  have len: "1 \<le> length ?bits" "length ?bits \<le> 30" by simp_all
  have bits: "set ?bits \<subseteq> {0, 1}" by simp
  have val: "binary_to_decimal ?bits = 731"
    by (simp add: binary_to_decimal_Cons binary_to_decimal_def)
  from mod_three_correct [OF init len bits] init len bits val show ?thesis
    by simp
qed

text \<open>
  C10. \<open>process_three_mod_input\<close> does not reset \<open>current_state\<close>: after a call on
  the valid bit sequence \<open>s1\<close> on a fresh ModThreeFSM the machine is in the state of
  remainder \<open>binary_to_decimal(s1) % 3\<close>, and a second call on the valid bit sequence
  \<open>s2\<close> returns \<open>binary_to_decimal(s1 ++ s2) % 3\<close>.
\<close>

theorem mod_three_continues:
  assumes "ModThreeFSM_init h = Inr (m, h')"
    and "s1 \<noteq> []" and "s2 \<noteq> []" and "set s1 \<subseteq> {0, 1}" and "set s2 \<subseteq> {0, 1}"
  shows "state_remainder h' (current_state (snd (process_three_mod_input h' m (VList (map VInt s1)))))
           = Inr (binary_to_decimal s1 mod 3)
       \<and> fst (process_three_mod_input h'
                (snd (process_three_mod_input h' m (VList (map VInt s1))))
                (VList (map VInt s2)))
           = Inr (binary_to_decimal (s1 @ s2) mod 3)"
proof -
  from init_cases [OF assms(1)] have h': "h' = h @ mod3_objects (length h)"
    and cur: "current_state m = length h + 0" by simp_all
  let ?k = "nat (binary_to_decimal s1 mod 3)"
  let ?m1 = "m\<lparr>current_state := length h + ?k\<rparr>"
  from assms(2) have ne1: "map VInt s1 \<noteq> []" by simp
  from assms(3) have ne2: "map VInt s2 \<noteq> []" by simp
  have first: "process_three_mod_input h' m (VList (map VInt s1))
                 = (Inr (binary_to_decimal s1 mod 3), ?m1)"
    using mod3_call [OF ne1 bits_valid [OF assms(4)] _ cur] by (simp add: h' bit_value_VInt)
  have k: "?k < 3" by simp
  have cur1: "current_state ?m1 = length h + ?k" by simp
  have "(int ?k * 2 ^ length s2 + binary_to_decimal s2) mod 3
          = ((binary_to_decimal s1 mod 3) * 2 ^ length s2 + binary_to_decimal s2) mod 3"
    by simp
  also have "\<dots> = (binary_to_decimal s1 * 2 ^ length s2 + binary_to_decimal s2) mod 3"
    by (metis mod_add_left_eq mod_mult_left_eq)
  finally have arith: "(int ?k * 2 ^ length s2 + binary_to_decimal s2) mod 3
          = binary_to_decimal (s1 @ s2) mod 3"
    by (simp only: binary_to_decimal_append)
  have second: "fst (process_three_mod_input h' ?m1 (VList (map VInt s2)))
                  = Inr (binary_to_decimal (s1 @ s2) mod 3)"
    using mod3_call [OF ne2 bits_valid [OF assms(5)] k cur1] arith
    by (simp add: h' bit_value_VInt)
  have "state_remainder h' (length h + ?k) = Inr (int ?k)"
    unfolding h' using k by (rule mod3_remainder)
  with first second show ?thesis by simp
qed

theorem mod_three_continues_witness:
  "ModThreeFSM_init [] =
     Inr (\<lparr>current_state = 0, states = [(''S0'', 0), (''S1'', 1), (''S2'', 2)]\<rparr>, mod3_objects 0)
   \<and> [1, 0] \<noteq> ([] :: int list) \<and> [1, 1, 1] \<noteq> ([] :: int list)
   \<and> set [1, 0 :: int] \<subseteq> {0, 1} \<and> set [1, 1, 1 :: int] \<subseteq> {0, 1}
   \<and> binary_to_decimal ([1, 0] @ [1, 1, 1]) = 23
   \<and> snd (process_three_mod_input (mod3_objects 0)
            \<lparr>current_state = 0, states = [(''S0'', 0), (''S1'', 1), (''S2'', 2)]\<rparr>
            (VList (map VInt [1, 0])))
       = \<lparr>current_state = 2, states = [(''S0'', 0), (''S1'', 1), (''S2'', 2)]\<rparr>
   \<and> fst (process_three_mod_input (mod3_objects 0)
            \<lparr>current_state = 2, states = [(''S0'', 0), (''S1'', 1), (''S2'', 2)]\<rparr>
            (VList (map VInt [1, 1, 1]))) = Inr 2"
proof -
  let ?m = "\<lparr>current_state = 0, states = [(''S0'', 0), (''S1'', 1), (''S2'', 2)]\<rparr>"
  have init: "ModThreeFSM_init [] = Inr (?m, mod3_objects 0)"
    by (simp add: ModThreeFSM_init_def State_init_def FSM_init_def add_state_def seq_def
        State_add_transition_def mod3_objects_def)
  have ne: "[1, 0] \<noteq> ([] :: int list)" "[1, 1, 1] \<noteq> ([] :: int list)" by simp_all
  have bits: "set [1, 0 :: int] \<subseteq> {0, 1}" "set [1, 1, 1 :: int] \<subseteq> {0, 1}" by simp_all
  have val: "binary_to_decimal ([1, 0] @ [1, 1, 1]) = 23"
    by (simp add: binary_to_decimal_Cons binary_to_decimal_def)
  have first: "snd (process_three_mod_input (mod3_objects 0) ?m (VList (map VInt [1, 0])))
       = \<lparr>current_state = 2, states = [(''S0'', 0), (''S1'', 1), (''S2'', 2)]\<rparr>"
    by (simp add: process_three_mod_input_def process_input_def get_next_state_def
        mod3_objects_def isinstance_int_def in_0_1_def state_remainder_def py_int_def
        strip_def is_space_def unsigned_literal_def digit_value_def)
  from mod_three_continues [OF init ne bits] init ne bits val first show ?thesis
    by simp
qed

text \<open>
  C5. In a freshly constructed ModThreeFSM, for each state name among S0, S1, S2 and each
  bit \<open>b\<close>, 0 or 1: the state registered under the name has a transition for \<open>b\<close>, and the
  remainder decoded from the target's name is \<open>(remainder * 2 + b) mod 3\<close>, where
  \<open>remainder\<close> is decoded from the name of the source state.
\<close>

theorem mod_three_table:
  assumes "ModThreeFSM_init h = Inr (m, h')"
    and "state_name \<in> {''S0'', ''S1'', ''S2''}" and "b \<in> {0, 1}"
  shows "\<exists>source target remainder.
           map_of (states m) state_name = Some source
         \<and> name (h' ! source) = state_name
         \<and> state_remainder h' source = Inr remainder
         \<and> get_next_state h' source (VInt b) = Inr (Some target)
         \<and> state_remainder h' target = Inr ((remainder * 2 + b) mod 3)"
proof -
  from init_cases [OF assms(1)] have h': "h' = h @ mod3_objects (length h)"
    and m: "states m = [(''S0'', length h + 0), (''S1'', length h + 1), (''S2'', length h + 2)]"
    by simp_all
  from assms(2) obtain k :: nat where k: "k < 3"
    and src: "map_of (states m) state_name = Some (length h + k)"
    and nm: "name (mod3_objects (length h) ! k) = state_name"
  proof -
    from assms(2) consider "state_name = ''S0''" | "state_name = ''S1''" | "state_name = ''S2''"
      by auto
    then show ?thesis
    proof cases
      case 1
      then show ?thesis using that [of 0] by (simp add: m mod3_objects_def)
    next
      case 2
      then show ?thesis using that [of 1] by (simp add: m mod3_objects_def)
    next
      case 3
      then show ?thesis using that [of 2] by (simp add: m mod3_objects_def)
    qed
  qed
  from assms(3) have isb: "is_bit (VInt b)" and bv: "bit_value (VInt b) = b"
    by (auto simp: is_bit_def isinstance_int_def in_0_1_def bit_value_def)
  let ?t = "nat ((int k * 2 + b) mod 3)"
  have "?t < 3" by simp
  then have tgt: "state_remainder h' (length h + ?t) = Inr (int ?t)"
    unfolding h' by (rule mod3_remainder)
  have "state_remainder h' (length h + k) = Inr (int k)"
    unfolding h' using k by (rule mod3_remainder)
  moreover have "get_next_state h' (length h + k) (VInt b) = Inr (Some (length h + ?t))"
    unfolding h' using mod3_next_state [OF k isb] by (simp add: bv)
  moreover have "name (h' ! (length h + k)) = state_name"
    unfolding h' by (simp add: mod3_objects_nth nm)
  moreover from tgt have "state_remainder h' (length h + ?t) = Inr ((int k * 2 + b) mod 3)"
    by simp
  ultimately show ?thesis using src by blast
qed

theorem mod_three_table_witness:
  "ModThreeFSM_init [] =
     Inr (\<lparr>current_state = 0, states = [(''S0'', 0), (''S1'', 1), (''S2'', 2)]\<rparr>, mod3_objects 0)
   \<and> ''S2'' \<in> {''S0'', ''S1'', ''S2''} \<and> (0::int) \<in> {0, 1}
   \<and> map_of (states \<lparr>current_state = 0, states = [(''S0'', 0), (''S1'', 1), (''S2'', 2)]\<rparr>) ''S2''
       = Some 2
   \<and> state_remainder (mod3_objects 0) 2 = Inr 2
   \<and> get_next_state (mod3_objects 0) 2 (VInt 0) = Inr (Some 1)
   \<and> state_remainder (mod3_objects 0) 1 = Inr ((2 * 2 + 0) mod 3)"
proof -
  let ?m = "\<lparr>current_state = 0, states = [(''S0'', 0), (''S1'', 1), (''S2'', 2)]\<rparr>"
  have init: "ModThreeFSM_init [] = Inr (?m, mod3_objects 0)"
    by (simp add: ModThreeFSM_init_def State_init_def FSM_init_def add_state_def seq_def
        State_add_transition_def mod3_objects_def)
  have nm: "''S2'' \<in> {''S0'', ''S1'', ''S2''}" and b: "(0::int) \<in> {0, 1}" by simp_all
  from mod_three_table [OF init nm b]
  obtain source target remainder where
    "map_of (states ?m) ''S2'' = Some source"
    "state_remainder (mod3_objects 0) source = Inr remainder"
    "get_next_state (mod3_objects 0) source (VInt 0) = Inr (Some target)"
    "state_remainder (mod3_objects 0) target = Inr ((remainder * 2 + 0) mod 3)"
    by blast
  moreover have "state_remainder (mod3_objects 0) 2 = Inr 2"
    by (simp add: state_remainder_def mod3_objects_def py_int_def strip_def is_space_def
        unsigned_literal_def digit_value_def)
  moreover have "get_next_state (mod3_objects 0) 2 (VInt 0) = Inr (Some 1)"
    by (simp add: get_next_state_def mod3_objects_def)
  ultimately show ?thesis using init by simp
qed

lemma int_less_3_cases: "0 \<le> (x::int) \<Longrightarrow> x < 3 \<Longrightarrow> x \<in> {0, 1, 2}"
  by auto

lemma mod3_registered:
  "r \<in> snd ` set [(''S0'', n + 0), (''S1'', n + 1), (''S2'', n + 2)]
     \<longleftrightarrow> (\<exists>k<3. r = n + (k::nat))"
proof
  assume "r \<in> snd ` set [(''S0'', n + 0), (''S1'', n + 1), (''S2'', n + 2)]"
  then have "r = n + 0 \<or> r = n + 1 \<or> r = n + 2" by simp
  then show "\<exists>k<3. r = n + k"
  proof (elim disjE)
    assume "r = n + 0"
    then show ?thesis by (intro exI [of _ 0]) simp
  next
    assume "r = n + 1"
    then show ?thesis by (intro exI [of _ 1]) simp
  next
    assume "r = n + 2"
    then show ?thesis by (intro exI [of _ 2]) simp
  qed
next
  assume "\<exists>k<3. r = n + k"
  then obtain k where "k < 3" and r: "r = n + k" by blast
  then have "k = 0 \<or> k = 1 \<or> k = 2" by arith
  with r show "r \<in> snd ` set [(''S0'', n + 0), (''S1'', n + 1), (''S2'', n + 2)]"
    by auto
qed

text \<open>
  C9. After the construction of a ModThreeFSM the registry holds the three states S0, S1
  and S2, and each of them has a transition for 0 and for 1, to a registered state. So
  whichever of them is current, for every non-empty list of elements that pass the
  validation, \<open>process_three_mod_input\<close> raises nothing (the no-transition branch of
  \<open>process_input\<close> is not reached) and returns 0, 1 or 2.
\<close>

theorem mod_three_total:
  assumes "ModThreeFSM_init h = Inr (m, h')"
  shows "map fst (states m) = [''S0'', ''S1'', ''S2'']
       \<and> (\<forall>r \<in> snd ` set (states m). \<forall>b \<in> {0, 1}.
             \<exists>t \<in> snd ` set (states m). get_next_state h' r (VInt b) = Inr (Some t))
       \<and> (\<forall>c \<in> snd ` set (states m). \<forall>xs. xs \<noteq> [] \<and> (\<forall>u \<in> set xs. is_bit u) \<longrightarrow>
             (\<exists>r \<in> {0, 1, 2}.
                fst (process_three_mod_input h' (m\<lparr>current_state := c\<rparr>) (VList xs)) = Inr r))"
proof -
  from init_cases [OF assms] have h': "h' = h @ mod3_objects (length h)"
    and m: "states m = [(''S0'', length h + 0), (''S1'', length h + 1), (''S2'', length h + 2)]"
    by simp_all
  have reg: "r \<in> snd ` set (states m) \<longleftrightarrow> (\<exists>k<3. r = length h + k)" for r
    unfolding m by (rule mod3_registered)
  have names: "map fst (states m) = [''S0'', ''S1'', ''S2'']"
    by (simp add: m)
  have table: "\<exists>t \<in> snd ` set (states m). get_next_state h' r (VInt b) = Inr (Some t)"
    if r: "r \<in> snd ` set (states m)" and b: "b \<in> {0, 1}" for r b
  proof -
    from r obtain k where k: "k < 3" and rk: "r = length h + k"
      unfolding reg by blast
    from b have isb: "is_bit (VInt b)"
      by (auto simp: is_bit_def isinstance_int_def in_0_1_def)
    let ?t = "nat ((int k * 2 + bit_value (VInt b)) mod 3)"
    have "?t < 3" by simp
    then have "length h + ?t \<in> snd ` set (states m)"
      unfolding reg by blast
    moreover have "get_next_state h' r (VInt b) = Inr (Some (length h + ?t))"
      unfolding h' rk by (rule mod3_next_state [OF k isb])
    ultimately show ?thesis by blast
  qed
  have run: "\<exists>r \<in> {0, 1, 2}.
               fst (process_three_mod_input h' (m\<lparr>current_state := c\<rparr>) (VList xs)) = Inr r"
    if c: "c \<in> snd ` set (states m)" and xs: "xs \<noteq> [] \<and> (\<forall>u \<in> set xs. is_bit u)" for c xs
  proof -
    from c obtain k where k: "k < 3" and ck: "c = length h + k"
      unfolding reg by blast
    let ?r = "(int k * 2 ^ length xs + binary_to_decimal (map bit_value xs)) mod 3"
    have cur: "current_state (m\<lparr>current_state := c\<rparr>) = length h + k"
      by (simp add: ck)
    from xs have ne: "xs \<noteq> []" and valid: "\<forall>u \<in> set xs. is_bit u" by simp_all
    have "fst (process_three_mod_input h' (m\<lparr>current_state := c\<rparr>) (VList xs)) = Inr ?r"
      unfolding h' using mod3_call [OF ne valid k cur] by simp
    moreover have "0 \<le> ?r" and "?r < 3" by simp_all
    then have "?r \<in> {0, 1, 2}" by (rule int_less_3_cases)
    ultimately show ?thesis by (rule bexI)
  qed
  show ?thesis
  proof (intro conjI ballI allI impI)
    show "map fst (states m) = [''S0'', ''S1'', ''S2'']" by (rule names)
  next
    fix r b assume "r \<in> snd ` set (states m)" and "b \<in> {0, 1 :: int}"
    then show "\<exists>t \<in> snd ` set (states m). get_next_state h' r (VInt b) = Inr (Some t)"
      by (rule table)
  next
    fix c xs assume "c \<in> snd ` set (states m)" and "xs \<noteq> [] \<and> (\<forall>u \<in> set xs. is_bit u)"
    then show "\<exists>r \<in> {0, 1, 2}.
               fst (process_three_mod_input h' (m\<lparr>current_state := c\<rparr>) (VList xs)) = Inr r"
      by (rule run)
  qed
qed

theorem mod_three_total_witness:
  "ModThreeFSM_init [] =
     Inr (\<lparr>current_state = 0, states = [(''S0'', 0), (''S1'', 1), (''S2'', 2)]\<rparr>, mod3_objects 0)
   \<and> get_next_state (mod3_objects 0) 1 (VInt 1) = Inr (Some 0)
   \<and> is_bit (VBool True) \<and> is_bit (VInt 0)
   \<and> fst (process_three_mod_input (mod3_objects 0)
            \<lparr>current_state = 1, states = [(''S0'', 0), (''S1'', 1), (''S2'', 2)]\<rparr>
            (VList [VBool True, VInt 0])) = Inr 0"
proof -
  let ?m = "\<lparr>current_state = 0, states = [(''S0'', 0), (''S1'', 1), (''S2'', 2)]\<rparr>"
  have init: "ModThreeFSM_init [] = Inr (?m, mod3_objects 0)"
    by (simp add: ModThreeFSM_init_def State_init_def FSM_init_def add_state_def seq_def
        State_add_transition_def mod3_objects_def)
  have bits: "is_bit (VBool True)" "is_bit (VInt 0)"
    by (simp_all add: is_bit_def isinstance_int_def in_0_1_def)
  have reg: "(1::nat) \<in> snd ` set (states ?m)" by simp
  have valid: "[VBool True, VInt 0] \<noteq> [] \<and> (\<forall>u \<in> set [VBool True, VInt 0]. is_bit u)"
    using bits by simp
  from mod_three_total [OF init]
  have "\<forall>c \<in> snd ` set (states ?m). \<forall>xs. xs \<noteq> [] \<and> (\<forall>u \<in> set xs. is_bit u) \<longrightarrow>
          (\<exists>r \<in> {0, 1, 2}.
             fst (process_three_mod_input (mod3_objects 0) (?m\<lparr>current_state := c\<rparr>) (VList xs)) = Inr r)"
    by (elim conjE)
  from this [THEN bspec, OF reg, THEN spec, THEN mp, OF valid]
  have "\<exists>r \<in> {0, 1, 2}.
          fst (process_three_mod_input (mod3_objects 0) (?m\<lparr>current_state := 1\<rparr>)
                 (VList [VBool True, VInt 0])) = Inr r" .
  moreover have "fst (process_three_mod_input (mod3_objects 0) (?m\<lparr>current_state := 1\<rparr>)
                 (VList [VBool True, VInt 0])) = Inr 0"
    by (simp add: process_three_mod_input_def process_input_def get_next_state_def
        mod3_objects_def isinstance_int_def in_0_1_def state_remainder_def py_int_def
        strip_def is_space_def unsigned_literal_def digit_value_def)
  moreover have "get_next_state (mod3_objects 0) 1 (VInt 1) = Inr (Some 0)"
    by (simp add: get_next_state_def mod3_objects_def)
  ultimately show ?thesis using init bits by simp
qed

section \<open>The registry invariant of the machine\<close>

lemma states_lookup_registered:
  "states_lookup m key = Inr (Some r) \<Longrightarrow> r \<in> snd ` set (states m)"
  by (cases key) (auto simp: states_lookup_def dest!: map_of_SomeD intro: rev_image_eqI split: if_splits)

lemma get_next_state_target:
  "get_next_state h r v = Inr (Some t) \<Longrightarrow> t \<in> snd ` set (transitions (h ! r))"
  by (auto simp: get_next_state_def dest!: map_of_SomeD intro: rev_image_eqI
      split: if_splits option.splits)

lemma process_loop_states: "states (snd (process_loop h m xs)) = states m"
  by (induction xs arbitrary: m) (auto split: sum.splits option.splits)

lemma process_loop_registered:
  assumes "targets_registered h m" and "current_registered m"
  shows "current_registered (snd (process_loop h m xs))"
  using assms
proof (induction xs arbitrary: m)
  case Nil
  then show ?case by simp
next
  case (Cons x xs)
  show ?case
  proof (cases "get_next_state h (current_state m) x")
    case (Inl e)
    with Cons.prems show ?thesis by simp
  next
    case (Inr nxt)
    show ?thesis
    proof (cases nxt)
      case None
      with Inr Cons.prems show ?thesis by simp
    next
      case (Some t)
      with Inr have "t \<in> snd ` set (transitions (h ! current_state m))"
        by (simp add: get_next_state_target)
      with Cons.prems have t: "t \<in> snd ` set (states m)"
        unfolding targets_registered_def current_registered_def by blast
      have "targets_registered h (m\<lparr>current_state := t\<rparr>)"
        using Cons.prems(1) by (simp add: targets_registered_def)
      moreover have "current_registered (m\<lparr>current_state := t\<rparr>)"
        using t by (simp add: current_registered_def)
      ultimately have "current_registered (snd (process_loop h (m\<lparr>current_state := t\<rparr>) xs))"
        by (rule Cons.IH)
      with Inr Some show ?thesis by simp
    qed
  qed
qed

lemma State_add_transition_targets:
  assumes "targets_registered h m" and "t \<in> snd ` set (states m)"
  shows "targets_registered (snd (State_add_transition h r v (VObj t))) m"
proof (cases "int_value v")
  case None
  with assms(1) show ?thesis by (simp add: State_add_transition_def)
next
  case (Some k)
  show ?thesis
  proof (cases "k \<in> fst ` set (transitions (h ! r)) \<or> length h \<le> r")
    case True
    with Some assms(1) show ?thesis
      by (auto simp: State_add_transition_def list_update_beyond)
  next
    case False
    let ?h' = "h[r := (h ! r)\<lparr>transitions := transitions (h ! r) @ [(k, t)]\<rparr>]"
    from False Some have eq: "snd (State_add_transition h r v (VObj t)) = ?h'"
      by (simp add: State_add_transition_def)
    have "t' \<in> snd ` set (states m)"
      if q: "q \<in> snd ` set (states m)" and t': "t' \<in> snd ` set (transitions (?h' ! q))" for q t'
    proof (cases "q = r")
      case True
      with False t' have "t' \<in> snd ` set (transitions (h ! r)) \<or> t' = t"
        by auto
      with assms q True show ?thesis
        unfolding targets_registered_def by blast
    next
      case False
      with t' have "t' \<in> snd ` set (transitions (h ! q))" by simp
      with assms(1) q show ?thesis
        unfolding targets_registered_def by blast
    qed
    then show ?thesis
      unfolding eq targets_registered_def by blast
  qed
qed

text \<open>
  C4, as amended. After construction \<open>current_state\<close> is a State of the registry
  (the initial state is registered by the constructor). \<open>add_state\<close> keeps this, whether
  it succeeds or raises; \<open>FSM.add_transition\<close> and \<open>is_accepting\<close> assign neither
  \<open>current_state\<close> nor \<open>states\<close>. \<open>process_input\<close> keeps it, also when it raises,
  on a machine in which every transition of a registered state leads to a registered
  state; \<open>FSM.add_transition\<close> preserves that property of the machine.
\<close>

theorem current_registered_preserved:
  "(FSM_init h initial_state = Inr m0 \<longrightarrow> current_registered m0)
   \<and> (current_registered m \<longrightarrow> current_registered (snd (add_state h m state)))
   \<and> (targets_registered h m \<longrightarrow>
        targets_registered (snd (FSM_add_transition h m from_state_name input_symbol to_state_name)) m)
   \<and> (current_registered m \<and> targets_registered h m \<longrightarrow>
        current_registered (snd (process_input h m input_sequence)))"
proof (intro conjI impI)
  assume "FSM_init h initial_state = Inr m0"
  then show "current_registered m0"
    by (cases initial_state) (auto simp: FSM_init_def current_registered_def)
next
  assume "current_registered m"
  then show "current_registered (snd (add_state h m state))"
    by (cases state) (auto simp: add_state_def current_registered_def)
next
  assume closed: "targets_registered h m"
  show "targets_registered (snd (FSM_add_transition h m from_state_name input_symbol to_state_name)) m"
  proof (cases "states_lookup m from_state_name")
    case (Inl e)
    with closed show ?thesis by (simp add: FSM_add_transition_def)
  next
    case from_state: (Inr a)
    show ?thesis
    proof (cases a)
      case None
      with from_state closed show ?thesis by (simp add: FSM_add_transition_def)
    next
      case (Some r)
      show ?thesis
      proof (cases "states_lookup m to_state_name")
        case (Inl e)
        with from_state Some closed show ?thesis by (simp add: FSM_add_transition_def)
      next
        case to_state: (Inr b)
        show ?thesis
        proof (cases b)
          case None
          with from_state Some to_state closed show ?thesis
            by (simp add: FSM_add_transition_def)
        next
          case target: (Some t)
          with to_state have "t \<in> snd ` set (states m)"
            by (simp add: states_lookup_registered)
          with closed have "targets_registered (snd (State_add_transition h r input_symbol (VObj t))) m"
            by (rule State_add_transition_targets)
          with from_state Some to_state target closed show ?thesis
            by (simp add: FSM_add_transition_def)
        qed
      qed
    qed
  qed
next
  assume a: "current_registered m \<and> targets_registered h m"
  then have "current_registered (snd (process_loop h m xs))" for xs
    by (simp add: process_loop_registered)
  with a show "current_registered (snd (process_input h m input_sequence))"
    by (simp add: process_input_def split: option.splits)
qed

theorem current_registered_preserved_witness:
  "FSM_init (mod3_objects 0) (VObj 0) = Inr \<lparr>current_state = 0, states = [(''S0'', 0)]\<rparr>
   \<and> current_registered \<lparr>current_state = 0, states = [(''S0'', 0)]\<rparr>
   \<and> add_state (mod3_objects 0) \<lparr>current_state = 0, states = [(''S0'', 0)]\<rparr> (VObj 1)
       = (Inr (), \<lparr>current_state = 0, states = [(''S0'', 0), (''S1'', 1)]\<rparr>)
   \<and> current_registered \<lparr>current_state = 0, states = [(''S0'', 0), (''S1'', 1)]\<rparr>
   \<and> targets_registered (mod3_objects 0)
        \<lparr>current_state = 0, states = [(''S0'', 0), (''S1'', 1), (''S2'', 2)]\<rparr>
   \<and> targets_registered
        (snd (FSM_add_transition (mod3_objects 0)
                \<lparr>current_state = 0, states = [(''S0'', 0), (''S1'', 1), (''S2'', 2)]\<rparr>
                (VStr ''S0'') (VInt 5) (VStr ''S2'')))
        \<lparr>current_state = 0, states = [(''S0'', 0), (''S1'', 1), (''S2'', 2)]\<rparr>
   \<and> current_registered \<lparr>current_state = 0, states = [(''S0'', 0), (''S1'', 1), (''S2'', 2)]\<rparr>
   \<and> process_input (mod3_objects 0)
        \<lparr>current_state = 0, states = [(''S0'', 0), (''S1'', 1), (''S2'', 2)]\<rparr>
        (VList [VInt 1, VInt 7])
       = (Inl (NoTransition (VInt 7) ''S1''),
          \<lparr>current_state = 1, states = [(''S0'', 0), (''S1'', 1), (''S2'', 2)]\<rparr>)
   \<and> current_registered \<lparr>current_state = 1, states = [(''S0'', 0), (''S1'', 1), (''S2'', 2)]\<rparr>"
proof -
  let ?h = "mod3_objects 0"
  let ?small = "\<lparr>current_state = 0, states = [(''S0'', 0)]\<rparr>"
  let ?m = "\<lparr>current_state = 0, states = [(''S0'', 0), (''S1'', 1), (''S2'', 2)]\<rparr>"
  have init: "FSM_init ?h (VObj 0) = Inr ?small"
    by (simp add: FSM_init_def mod3_objects_def)
  have added: "add_state ?h ?small (VObj 1)
                 = (Inr (), \<lparr>current_state = 0, states = [(''S0'', 0), (''S1'', 1)]\<rparr>)"
    by (simp add: add_state_def mod3_objects_def)
  have closed: "targets_registered ?h ?m"
    by (simp add: targets_registered_def mod3_objects_def)
  have cur: "current_registered ?m"
    by (simp add: current_registered_def)
  have run: "process_input ?h ?m (VList [VInt 1, VInt 7])
               = (Inl (NoTransition (VInt 7) ''S1''),
                  \<lparr>current_state = 1, states = [(''S0'', 0), (''S1'', 1), (''S2'', 2)]\<rparr>)"
    by (simp add: process_input_def get_next_state_def mod3_objects_def)
  from current_registered_preserved [where h = ?h and initial_state = "VObj 0" and ?m0.0 = ?small]
    init
  have c0: "current_registered ?small" by simp
  from current_registered_preserved [where h = ?h and m = ?small and state = "VObj 1"] c0 added
  have c1: "current_registered \<lparr>current_state = 0, states = [(''S0'', 0), (''S1'', 1)]\<rparr>"
    by simp
  from current_registered_preserved [where h = ?h and m = ?m and from_state_name = "VStr ''S0''"
      and input_symbol = "VInt 5" and to_state_name = "VStr ''S2''"
      and input_sequence = "VList [VInt 1, VInt 7]"] closed cur run
  have c2: "targets_registered
        (snd (FSM_add_transition ?h ?m (VStr ''S0'') (VInt 5) (VStr ''S2''))) ?m"
    and c3: "current_registered \<lparr>current_state = 1, states = [(''S0'', 0), (''S1'', 1), (''S2'', 2)]\<rparr>"
    by simp_all
  from init added closed cur run c0 c1 c2 c3 show ?thesis by simp
qed

text \<open>
  C4 as stated fails: a state wired with \<open>State.add_transition\<close> to a state that is
  never registered takes \<open>process_input\<close> out of the registry.
\<close>

theorem current_registered_counterexample:
  "State_init [] (VStr ''S0'') (VBool False)
     = Inr (0, [\<lparr>name = ''S0'', is_accepting = False, transitions = []\<rparr>])
   \<and> State_init [\<lparr>name = ''S0'', is_accepting = False, transitions = []\<rparr>] (VStr ''X'') (VBool False)
     = Inr (1, [\<lparr>name = ''S0'', is_accepting = False, transitions = []\<rparr>,
                \<lparr>name = ''X'', is_accepting = False, transitions = []\<rparr>])
   \<and> State_add_transition [\<lparr>name = ''S0'', is_accepting = False, transitions = []\<rparr>,
                            \<lparr>name = ''X'', is_accepting = False, transitions = []\<rparr>] 0 (VInt 0) (VObj 1)
     = (Inr (), [\<lparr>name = ''S0'', is_accepting = False, transitions = [(0, 1)]\<rparr>,
                 \<lparr>name = ''X'', is_accepting = False, transitions = []\<rparr>])
   \<and> FSM_init [\<lparr>name = ''S0'', is_accepting = False, transitions = [(0, 1)]\<rparr>,
                \<lparr>name = ''X'', is_accepting = False, transitions = []\<rparr>] (VObj 0)
     = Inr \<lparr>current_state = 0, states = [(''S0'', 0)]\<rparr>
   \<and> current_registered \<lparr>current_state = 0, states = [(''S0'', 0)]\<rparr>
   \<and> process_input [\<lparr>name = ''S0'', is_accepting = False, transitions = [(0, 1)]\<rparr>,
                     \<lparr>name = ''X'', is_accepting = False, transitions = []\<rparr>]
        \<lparr>current_state = 0, states = [(''S0'', 0)]\<rparr> (VList [VInt 0])
     = (Inr 1, \<lparr>current_state = 1, states = [(''S0'', 0)]\<rparr>)
   \<and> \<not> current_registered \<lparr>current_state = 1, states = [(''S0'', 0)]\<rparr>"
  by (simp add: State_init_def State_add_transition_def FSM_init_def current_registered_def
      process_input_def get_next_state_def)

end
